theory Spec2Isabelle
  imports Main
begin

section \<open>The presence and relay hub of \<open>server.js\<close>\<close>

text \<open>
  The server keeps one global \<open>Map\<close>, \<open>connectedUsers\<close>, from a user id to the \<open>Set\<close>
  of socket ids registered under it, and reacts to the socket events \<open>register\<close>,
  \<open>request_online_users\<close>, \<open>disconnect\<close>, \<open>typing\<close>, \<open>stop_typing\<close>, \<open>send_message\<close>,
  \<open>send_media\<close>, \<open>webrtc_offer\<close>, \<open>webrtc_answer\<close>, \<open>webrtc_ice\<close> and \<open>debug_status\<close>.
  Each handler is embedded as a function from the socket id of the connection it runs
  on, the argument of the event and the registry, to either the exception it throws or
  the updated registry together with the list of \<open>emit\<close> calls it makes, in order.
  The two HTTP routes only read the registry and are left out.
\<close>

subsection \<open>JavaScript values\<close>

text \<open>
  What a client can put into an event argument. \<open>JNum\<close> stands for the integral numbers
  (a number that is not integral is truthy and equal to itself only, as a non-zero
  integer is), \<open>JNaN\<close> for the number \<open>NaN\<close>; \<open>JArr r xs\<close> is an array, \<open>JObj r\<close> an object
  that is not an array and whose conversion to a string succeeds, and \<open>JBadObj r\<close> an
  object whose conversion to a string throws, such as \<open>{toString: 1}\<close>, all three with
  their reference \<open>r\<close>: the server never reads inside an object that is the value of a
  field, it only tests it, passes it on and, in its log lines, converts it to a string.
  HOL equality on these values is the \<open>SameValueZero\<close> comparison of \<open>Map\<close> and \<open>Set\<close>.
\<close>

datatype jsval =
    JUndefined
  | JNull
  | JBool bool
  | JNum int
  | JNaN
  | JStr string
  | JArr nat "jsval list"
  | JObj nat
  | JBadObj nat

text \<open>The test \<open>if (v)\<close>; \<open>!v\<close> is its negation.\<close>

fun truthy :: "jsval \<Rightarrow> bool" where
  "truthy JUndefined = False"
| "truthy JNull = False"
| "truthy (JBool b) = b"
| "truthy (JNum n) = (n \<noteq> 0)"
| "truthy JNaN = False"
| "truthy (JStr s) = (s \<noteq> [])"
| "truthy (JArr r xs) = True"
| "truthy (JObj r) = True"
| "truthy (JBadObj r) = True"

text \<open>
  Whether the conversion to a string in a template literal, \<open>`${v}`\<close>, throws a
  \<open>TypeError\<close>: it does for an object that has no usable \<open>toString\<close> or \<open>valueOf\<close>, and
  for an array with such an element, since the conversion of an array joins the
  conversions of its elements.
\<close>

fun ToString_throws :: "jsval \<Rightarrow> bool" where
  "ToString_throws (JBadObj r) = True"
| "ToString_throws (JArr r xs) = (\<exists>x \<in> set xs. ToString_throws x)"
| "ToString_throws v = False"

text \<open>The operator \<open>!==\<close>: as inequality, except that \<open>NaN !== NaN\<close>.\<close>

definition strict_neq :: "jsval \<Rightarrow> jsval \<Rightarrow> bool" where
  "strict_neq a b = (a \<noteq> b \<or> a = JNaN)"

text \<open>
  The argument of an event whose handler destructures it, as in
  \<open>({ senderId, receiverId }) => ...\<close>: nothing or \<open>undefined\<close>, \<open>null\<close>, a boolean,
  number or string (which has none of the properties the handlers read), or an object
  with its properties.
\<close>

datatype payload =
    PUndefined
  | PNull
  | PPrimitive
  | PObject "string \<rightharpoonup> jsval"

datatype error = TypeError

text \<open>Reading a property of an object: \<open>undefined\<close> when it is not there.\<close>

definition prop_of :: "(string \<rightharpoonup> jsval) \<Rightarrow> string \<Rightarrow> jsval" where
  "prop_of f k = (case f k of None \<Rightarrow> JUndefined | Some v \<Rightarrow> v)"

text \<open>
  Reading one property while destructuring: a \<open>TypeError\<close> on \<open>undefined\<close> and \<open>null\<close>,
  the property otherwise.
\<close>

fun destructure :: "payload \<Rightarrow> string \<Rightarrow> error + jsval" where
  "destructure PUndefined k = Inl TypeError"
| "destructure PNull k = Inl TypeError"
| "destructure PPrimitive k = Inr JUndefined"
| "destructure (PObject f) k = Inr (prop_of f k)"

subsection \<open>The registry: a \<open>Map\<close> of \<open>Set\<close>s, in insertion order\<close>

type_synonym socket_id = string

text \<open>
  A \<open>Set\<close> of socket ids is the list of its elements in insertion order, the \<open>Map\<close> the
  list of its entries in insertion order: \<open>keys()\<close>, \<open>entries()\<close> and \<open>forEach\<close> iterate
  in that order.
\<close>

type_synonym connected_users = "(jsval \<times> socket_id list) list"

definition Set_add :: "socket_id \<Rightarrow> socket_id list \<Rightarrow> socket_id list" where
  "Set_add x xs = (if x \<in> set xs then xs else xs @ [x])"

definition Set_delete :: "socket_id \<Rightarrow> socket_id list \<Rightarrow> socket_id list" where
  "Set_delete x xs = removeAll x xs"

fun Map_get :: "connected_users \<Rightarrow> jsval \<Rightarrow> socket_id list option" where
  "Map_get [] k = None"
| "Map_get ((k', v) # m) k = (if k' = k then Some v else Map_get m k)"

definition Map_has :: "connected_users \<Rightarrow> jsval \<Rightarrow> bool" where
  "Map_has m k = (Map_get m k \<noteq> None)"

text \<open>\<open>set\<close> replaces the value of a key where the key stands, and appends a new key.\<close>

fun Map_set :: "connected_users \<Rightarrow> jsval \<Rightarrow> socket_id list \<Rightarrow> connected_users" where
  "Map_set [] k v = [(k, v)]"
| "Map_set ((k', v') # m) k v = (if k' = k then (k, v) # m else (k', v') # Map_set m k v)"

definition Map_keys :: "connected_users \<Rightarrow> jsval list" where
  "Map_keys m = map fst m"

text \<open>The handles of a user for fan-out: the set under the key, none when the key is absent.\<close>

definition connectionsOf :: "connected_users \<Rightarrow> jsval \<Rightarrow> socket_id list" where
  "connectionsOf m k = (case Map_get m k of None \<Rightarrow> [] | Some s \<Rightarrow> s)"

subsection \<open>Outbound events\<close>

text \<open>
  Where an \<open>emit\<close> goes: \<open>io.emit\<close> (every connection), \<open>socket.emit\<close> (the connection the
  handler runs on) or \<open>io.to(room).emit\<close>.
\<close>

datatype target =
    ToAll
  | ToSocket socket_id
  | ToRoom jsval

text \<open>The outbound events with their fields, in the order of the object literals.\<close>

datatype out_event =
    UserOnline jsval
  | UserOffline jsval
  | OnlineUsers "jsval list"
  | Typing jsval
  | StopTyping jsval
  | ReceiveMessage jsval jsval jsval jsval
  | ReceiveMedia jsval jsval jsval jsval jsval jsval
  | WebrtcOffer socket_id jsval jsval
  | WebrtcAnswer jsval socket_id
  | WebrtcIce jsval
  | DebugStatusResponse nat "(jsval \<times> nat \<times> socket_id list) list" socket_id

type_synonym emit = "target \<times> out_event"

type_synonym outcome = "error + connected_users \<times> emit list"

text \<open>\<open>sockets.forEach((socketId) => io.to(socketId).emit(...))\<close>\<close>

definition fan_out :: "socket_id list \<Rightarrow> out_event \<Rightarrow> emit list" where
  "fan_out sockets e = map (\<lambda>socketId. (ToRoom (JStr socketId), e)) sockets"

subsection \<open>The handlers\<close>

text \<open>
  The part of \<open>register\<close> under the comment "Store user's socket": the registry as the
  handler has written it when it reaches its first log line.
  \<open>connectedUsers.get(userId).add(socket.id)\<close> would throw on \<open>undefined\<close>, which the
  model keeps as a branch.
\<close>

definition store_socket :: "socket_id \<Rightarrow> jsval \<Rightarrow> connected_users \<Rightarrow> error + connected_users" where
  "store_socket sid userId cu =
     (let cu1 = (if \<not> Map_has cu userId then Map_set cu userId [] else cu) in
      case Map_get cu1 userId of
        None \<Rightarrow> Inl TypeError
      | Some sockets \<Rightarrow> Inr (Map_set cu1 userId (Set_add sid sockets)))"

text \<open>
  \<open>register\<close>: after the guard and the store, the log line with \<open>${userId}\<close> throws when
  the conversion of the user id to a string does, with the registry written and nothing
  emitted yet; then come the three kinds of \<open>emit\<close>.
\<close>

definition register :: "socket_id \<Rightarrow> jsval \<Rightarrow> connected_users \<Rightarrow> outcome" where
  "register sid userId cu =
     (if \<not> truthy userId then Inr (cu, [])
      else
        case store_socket sid userId cu of
          Inl e \<Rightarrow> Inl e
        | Inr cu2 \<Rightarrow>
            if ToString_throws userId then Inl TypeError
            else
              let onlineUserIds = Map_keys cu2
              in Inr (cu2,
                   [(ToAll, UserOnline userId),
                    (ToSocket sid, OnlineUsers onlineUserIds)] @
                   map (\<lambda>onlineUserId. (ToSocket sid, UserOnline onlineUserId))
                     (filter (\<lambda>onlineUserId. strict_neq onlineUserId userId) onlineUserIds)))"

definition request_online_users :: "socket_id \<Rightarrow> connected_users \<Rightarrow> outcome" where
  "request_online_users sid cu = Inr (cu, [(ToSocket sid, OnlineUsers (Map_keys cu))])"

text \<open>
  The loop of \<open>disconnect\<close> over \<open>connectedUsers.entries()\<close>: it stops at the first user
  whose set has the socket, takes the socket out of that set and deletes the key when
  the set is empty. It returns the registry and \<open>userIdToCheck\<close>. Its log line with
  \<open>${userId}\<close>, right after the socket is taken out, throws when the conversion of that
  key to a string does.
\<close>

fun disconnect_loop :: "socket_id \<Rightarrow> connected_users \<Rightarrow> error + connected_users \<times> jsval" where
  "disconnect_loop sid [] = Inr ([], JNull)"
| "disconnect_loop sid ((userId, sockets) # rest) =
     (if sid \<in> set sockets then
        (let sockets' = Set_delete sid sockets in
         if ToString_throws userId then Inl TypeError
         else if length sockets' = 0 then Inr (rest, userId)
         else Inr ((userId, sockets') # rest, JNull))
      else
        (case disconnect_loop sid rest of
           Inl e \<Rightarrow> Inl e
         | Inr (rest', userIdToCheck) \<Rightarrow> Inr ((userId, sockets) # rest', userIdToCheck)))"

definition disconnect :: "socket_id \<Rightarrow> connected_users \<Rightarrow> outcome" where
  "disconnect sid cu =
     (case disconnect_loop sid cu of
        Inl e \<Rightarrow> Inl e
      | Inr (cu', userIdToCheck) \<Rightarrow>
          Inr (cu', if truthy userIdToCheck then [(ToAll, UserOffline userIdToCheck)] else []))"

definition typing :: "socket_id \<Rightarrow> payload \<Rightarrow> connected_users \<Rightarrow> outcome" where
  "typing sid p cu =
     (case destructure p ''senderId'' of Inl e \<Rightarrow> Inl e | Inr senderId \<Rightarrow>
      case destructure p ''receiverId'' of Inl e \<Rightarrow> Inl e | Inr receiverId \<Rightarrow>
      if \<not> truthy senderId \<or> \<not> truthy receiverId then Inr (cu, [])
      else case Map_get cu receiverId of
          None \<Rightarrow> Inr (cu, [])
        | Some receiverSockets \<Rightarrow> Inr (cu, fan_out receiverSockets (Typing senderId)))"

definition stop_typing :: "socket_id \<Rightarrow> payload \<Rightarrow> connected_users \<Rightarrow> outcome" where
  "stop_typing sid p cu =
     (case destructure p ''senderId'' of Inl e \<Rightarrow> Inl e | Inr senderId \<Rightarrow>
      case destructure p ''receiverId'' of Inl e \<Rightarrow> Inl e | Inr receiverId \<Rightarrow>
      if \<not> truthy senderId \<or> \<not> truthy receiverId then Inr (cu, [])
      else case Map_get cu receiverId of
          None \<Rightarrow> Inr (cu, [])
        | Some receiverSockets \<Rightarrow> Inr (cu, fan_out receiverSockets (StopTyping senderId)))"

definition send_message :: "socket_id \<Rightarrow> payload \<Rightarrow> connected_users \<Rightarrow> outcome" where
  "send_message sid p cu =
     (case destructure p ''senderId'' of Inl e \<Rightarrow> Inl e | Inr senderId \<Rightarrow>
      case destructure p ''receiverId'' of Inl e \<Rightarrow> Inl e | Inr receiverId \<Rightarrow>
      case destructure p ''content'' of Inl e \<Rightarrow> Inl e | Inr content \<Rightarrow>
      case destructure p ''messageId'' of Inl e \<Rightarrow> Inl e | Inr messageId \<Rightarrow>
      case destructure p ''createdAt'' of Inl e \<Rightarrow> Inl e | Inr createdAt \<Rightarrow>
      if \<not> truthy senderId \<or> \<not> truthy receiverId \<or> \<not> truthy content then Inr (cu, [])
      else case Map_get cu receiverId of
          None \<Rightarrow> Inr (cu, [])
        | Some receiverSockets \<Rightarrow>
            Inr (cu, fan_out receiverSockets
                       (ReceiveMessage senderId content messageId createdAt)))"

definition send_media :: "socket_id \<Rightarrow> payload \<Rightarrow> connected_users \<Rightarrow> outcome" where
  "send_media sid p cu =
     (case destructure p ''senderId'' of Inl e \<Rightarrow> Inl e | Inr senderId \<Rightarrow>
      case destructure p ''receiverId'' of Inl e \<Rightarrow> Inl e | Inr receiverId \<Rightarrow>
      case destructure p ''mediaType'' of Inl e \<Rightarrow> Inl e | Inr mediaType \<Rightarrow>
      case destructure p ''data'' of Inl e \<Rightarrow> Inl e | Inr data \<Rightarrow>
      case destructure p ''filename'' of Inl e \<Rightarrow> Inl e | Inr filename \<Rightarrow>
      case destructure p ''messageId'' of Inl e \<Rightarrow> Inl e | Inr messageId \<Rightarrow>
      case destructure p ''createdAt'' of Inl e \<Rightarrow> Inl e | Inr createdAt \<Rightarrow>
      if \<not> truthy senderId \<or> \<not> truthy receiverId \<or> \<not> truthy mediaType then Inr (cu, [])
      else case Map_get cu receiverId of
          None \<Rightarrow> Inr (cu, [])
        | Some receiverSockets \<Rightarrow>
            Inr (cu, fan_out receiverSockets
                       (ReceiveMedia senderId mediaType data filename messageId createdAt)))"

definition webrtc_offer :: "socket_id \<Rightarrow> payload \<Rightarrow> connected_users \<Rightarrow> outcome" where
  "webrtc_offer sid p cu =
     (case destructure p ''receiverId'' of Inl e \<Rightarrow> Inl e | Inr receiverId \<Rightarrow>
      case destructure p ''senderId'' of Inl e \<Rightarrow> Inl e | Inr senderId \<Rightarrow>
      case destructure p ''offer'' of Inl e \<Rightarrow> Inl e | Inr offer \<Rightarrow>
      if \<not> truthy receiverId \<or> \<not> truthy senderId \<or> \<not> truthy offer then Inr (cu, [])
      else case Map_get cu receiverId of
          None \<Rightarrow> Inr (cu, [])
        | Some sockets \<Rightarrow> Inr (cu, fan_out sockets (WebrtcOffer sid senderId offer)))"

definition webrtc_answer :: "socket_id \<Rightarrow> payload \<Rightarrow> connected_users \<Rightarrow> outcome" where
  "webrtc_answer sid p cu =
     (case destructure p ''senderSocketId'' of Inl e \<Rightarrow> Inl e | Inr senderSocketId \<Rightarrow>
      case destructure p ''answer'' of Inl e \<Rightarrow> Inl e | Inr answer \<Rightarrow>
      if \<not> truthy senderSocketId \<or> \<not> truthy answer then Inr (cu, [])
      else Inr (cu, [(ToRoom senderSocketId, WebrtcAnswer answer sid)]))"

definition webrtc_ice :: "socket_id \<Rightarrow> payload \<Rightarrow> connected_users \<Rightarrow> outcome" where
  "webrtc_ice sid p cu =
     (case destructure p ''targetSocketId'' of Inl e \<Rightarrow> Inl e | Inr targetSocketId \<Rightarrow>
      case destructure p ''candidate'' of Inl e \<Rightarrow> Inl e | Inr candidate \<Rightarrow>
      if \<not> truthy targetSocketId \<or> \<not> truthy candidate then Inr (cu, [])
      else Inr (cu, [(ToRoom targetSocketId, WebrtcIce candidate)]))"

definition debug_status :: "socket_id \<Rightarrow> connected_users \<Rightarrow> outcome" where
  "debug_status sid cu =
     Inr (cu, [(ToSocket sid,
       DebugStatusResponse (length cu)
         (map (\<lambda>(userId, sockets). (userId, length sockets, sockets)) cu) sid)])"

subsection \<open>Inbound events and runs\<close>

datatype in_event =
    Register jsval
  | RequestOnlineUsers
  | Disconnect
  | TypingEv payload
  | StopTypingEv payload
  | SendMessage payload
  | SendMedia payload
  | WebrtcOfferEv payload
  | WebrtcAnswerEv payload
  | WebrtcIceEv payload
  | DebugStatus

fun handle :: "socket_id \<Rightarrow> in_event \<Rightarrow> connected_users \<Rightarrow> outcome" where
  "handle sid (Register userId) cu = register sid userId cu"
| "handle sid RequestOnlineUsers cu = request_online_users sid cu"
| "handle sid Disconnect cu = disconnect sid cu"
| "handle sid (TypingEv p) cu = typing sid p cu"
| "handle sid (StopTypingEv p) cu = stop_typing sid p cu"
| "handle sid (SendMessage p) cu = send_message sid p cu"
| "handle sid (SendMedia p) cu = send_media sid p cu"
| "handle sid (WebrtcOfferEv p) cu = webrtc_offer sid p cu"
| "handle sid (WebrtcAnswerEv p) cu = webrtc_answer sid p cu"
| "handle sid (WebrtcIceEv p) cu = webrtc_ice sid p cu"
| "handle sid DebugStatus cu = debug_status sid cu"

text \<open>
  A run: the events of all connections in the order the server handles them, each with
  the id of the socket it arrives on. An exception that a handler throws is not caught
  anywhere, so the run ends with it.
\<close>

fun run :: "connected_users \<Rightarrow> (socket_id \<times> in_event) list \<Rightarrow> outcome" where
  "run cu [] = Inr (cu, [])"
| "run cu ((sid, ev) # evs) =
     (case handle sid ev cu of
        Inl e \<Rightarrow> Inl e
      | Inr (cu', out) \<Rightarrow>
          (case run cu' evs of
             Inl e \<Rightarrow> Inl e
           | Inr (cu'', out') \<Rightarrow> Inr (cu'', out @ out')))"

subsection \<open>Delivery\<close>

text \<open>
  Which connections an \<open>emit\<close> reaches, given the ids of the connections that are open.
  The transport puts every socket into the room named by its own id and the server
  never calls \<open>join\<close>, so these are the only rooms; \<open>io.to\<close> takes a room or an array of
  rooms, and a room that does not exist has no members.
\<close>

fun room_names :: "jsval \<Rightarrow> jsval list" where
  "room_names (JArr r xs) = xs"
| "room_names v = [v]"

fun recipients :: "socket_id list \<Rightarrow> target \<Rightarrow> socket_id list" where
  "recipients live ToAll = live"
| "recipients live (ToSocket s) = filter (\<lambda>c. c = s) live"
| "recipients live (ToRoom room) = filter (\<lambda>c. JStr c \<in> set (room_names room)) live"

definition deliveries :: "socket_id list \<Rightarrow> emit list \<Rightarrow> (socket_id \<times> out_event) list" where
  "deliveries live out = concat (map (\<lambda>(t, e). map (\<lambda>c. (c, e)) (recipients live t)) out)"

subsection \<open>The invariant of the registry\<close>

text \<open>
  Keys are unique, pass the test of \<open>register\<close> and convert to a string, and every set
  under a key is non-empty and without repetition.
\<close>

definition registry_ok :: "connected_users \<Rightarrow> bool" where
  "registry_ok cu =
     (distinct (map fst cu) \<and>
      (\<forall>(userId, sockets) \<in> set cu.
          truthy userId \<and> \<not> ToString_throws userId \<and> sockets \<noteq> [] \<and> distinct sockets))"

subsection \<open>Facts about the \<open>Map\<close> operations and the invariant\<close>

lemma Map_get_map_of: "Map_get m k = map_of m k"
  by (induction m) auto

lemma Map_get_None_iff: "Map_get m k = None \<longleftrightarrow> k \<notin> fst ` set m"
  by (simp add: Map_get_map_of map_of_eq_None_iff)

lemma Map_get_SomeD: "Map_get m k = Some v \<Longrightarrow> (k, v) \<in> set m"
  by (simp add: Map_get_map_of map_of_SomeD)

lemma Map_set_keys:
  "map fst (Map_set m k v) = (if k \<in> set (map fst m) then map fst m else map fst m @ [k])"
  by (induction m) force+

lemma Map_set_entries: "set (Map_set m k v) \<subseteq> insert (k, v) (set m)"
  by (induction m) (auto split: if_splits)

lemma Map_get_set_same: "Map_get (Map_set m k v) k = Some v"
  by (induction m) auto

lemma Map_set_set: "Map_set (Map_set m k v) k w = Map_set m k w"
  by (induction m) auto

lemma registry_ok_Map_set:
  assumes "registry_ok m" "truthy k" "\<not> ToString_throws k" "v \<noteq> []" "distinct v"
  shows "registry_ok (Map_set m k v)"
  using assms Map_set_entries[of m k v]
  unfolding registry_ok_def by (auto simp: Map_set_keys)

lemma distinct_Set_add: "distinct xs \<Longrightarrow> distinct (Set_add x xs)"
  by (simp add: Set_add_def)

lemma Set_add_nonempty: "Set_add x xs \<noteq> []"
  by (auto simp: Set_add_def)

lemma store_socket_eq:
  "store_socket sid userId cu = Inr (Map_set cu userId (Set_add sid (connectionsOf cu userId)))"
  by (cases "Map_get cu userId")
     (simp_all add: store_socket_def Map_has_def connectionsOf_def Map_get_set_same Map_set_set)

lemma register_cases:
  "register sid userId cu =
     (if \<not> truthy userId then Inr (cu, [])
      else if ToString_throws userId then Inl TypeError
      else let cu2 = Map_set cu userId (Set_add sid (connectionsOf cu userId)) in
        Inr (cu2, [(ToAll, UserOnline userId), (ToSocket sid, OnlineUsers (Map_keys cu2))] @
              map (\<lambda>u. (ToSocket sid, UserOnline u)) (filter (\<lambda>u. strict_neq u userId) (Map_keys cu2))))"
  by (simp add: register_def store_socket_eq Let_def)

lemma registry_ok_sockets:
  "registry_ok cu \<Longrightarrow> distinct (connectionsOf cu k)"
  unfolding registry_ok_def connectionsOf_def
  by (auto split: option.splits dest!: Map_get_SomeD)

lemma register_ok:
  assumes "registry_ok cu" "register sid userId cu = Inr (cu', out)"
  shows "registry_ok cu'"
  using assms
  by (auto simp: register_cases Let_def split: if_splits
      intro!: registry_ok_Map_set distinct_Set_add Set_add_nonempty registry_ok_sockets)

lemma disconnect_loop_found:
  assumes "sid \<in> set s" "disconnect_loop sid ((u, s) # cu) = Inr (cu', c)"
  shows "\<not> ToString_throws u \<and>
         ((Set_delete sid s = [] \<and> cu' = cu \<and> c = u) \<or>
          (Set_delete sid s \<noteq> [] \<and> cu' = (u, Set_delete sid s) # cu \<and> c = JNull))"
  using assms by (auto simp: Let_def split: if_splits)

lemma disconnect_loop_skip:
  assumes "sid \<notin> set s" "disconnect_loop sid ((u, s) # cu) = Inr (cu', c)"
  shows "\<exists>r. disconnect_loop sid cu = Inr (r, c) \<and> cu' = (u, s) # r"
  using assms by (auto split: sum.splits)

lemma disconnect_loop_keys_subset:
  "disconnect_loop sid cu = Inr (cu', c) \<Longrightarrow> fst ` set cu' \<subseteq> fst ` set cu"
proof (induction cu arbitrary: cu' c)
  case Nil then show ?case by simp
next
  case (Cons a cu)
  obtain u s where a: "a = (u, s)" by (cases a)
  show ?case
  proof (cases "sid \<in> set s")
    case True
    from disconnect_loop_found[OF True Cons.prems[unfolded a]]
    have "cu' = cu \<or> cu' = (u, Set_delete sid s) # cu" by blast
    then show ?thesis unfolding a by auto
  next
    case False
    from disconnect_loop_skip[OF False Cons.prems[unfolded a]]
    obtain r where r: "disconnect_loop sid cu = Inr (r, c)" and cu': "cu' = (u, s) # r" by blast
    from Cons.IH[OF r] show ?thesis unfolding cu' a by auto
  qed
qed

lemma disconnect_loop_keys_distinct:
  "disconnect_loop sid cu = Inr (cu', c) \<Longrightarrow> distinct (map fst cu) \<Longrightarrow> distinct (map fst cu')"
proof (induction cu arbitrary: cu' c)
  case Nil then show ?case by simp
next
  case (Cons a cu)
  obtain u s where a: "a = (u, s)" by (cases a)
  show ?case
  proof (cases "sid \<in> set s")
    case True
    from disconnect_loop_found[OF True Cons.prems(1)[unfolded a]]
    have "cu' = cu \<or> cu' = (u, Set_delete sid s) # cu" by blast
    with Cons.prems(2) a show ?thesis by auto
  next
    case False
    from disconnect_loop_skip[OF False Cons.prems(1)[unfolded a]]
    obtain r where r: "disconnect_loop sid cu = Inr (r, c)" and cu': "cu' = (u, s) # r" by blast
    from Cons.IH[OF r] Cons.prems(2) have "distinct (map fst r)" by simp
    moreover from disconnect_loop_keys_subset[OF r] Cons.prems(2) a have "u \<notin> fst ` set r" by auto
    ultimately show ?thesis using cu' by simp
  qed
qed

lemma disconnect_loop_entries:
  "disconnect_loop sid cu = Inr (cu', c) \<Longrightarrow> (u, s) \<in> set cu' \<Longrightarrow>
     (u, s) \<in> set cu \<or> (s \<noteq> [] \<and> (\<exists>s0. (u, s0) \<in> set cu \<and> s = Set_delete sid s0))"
proof (induction cu arbitrary: cu' c)
  case Nil then show ?case by simp
next
  case (Cons a cu)
  obtain v t where a: "a = (v, t)" by (cases a)
  show ?case
  proof (cases "sid \<in> set t")
    case True
    from disconnect_loop_found[OF True Cons.prems(1)[unfolded a]]
    have "cu' = cu \<or> (Set_delete sid t \<noteq> [] \<and> cu' = (v, Set_delete sid t) # cu)" by blast
    with Cons.prems(2) a show ?thesis by auto
  next
    case False
    from disconnect_loop_skip[OF False Cons.prems(1)[unfolded a]]
    obtain r where r: "disconnect_loop sid cu = Inr (r, c)" and cu': "cu' = (v, t) # r" by blast
    with Cons.prems(2) have "(u, s) = (v, t) \<or> (u, s) \<in> set r" by auto
    then show ?thesis
    proof
      assume "(u, s) = (v, t)" with a show ?thesis by simp
    next
      assume "(u, s) \<in> set r"
      from Cons.IH[OF r this] show ?thesis by auto
    qed
  qed
qed

lemma disconnect_loop_ok:
  assumes "registry_ok cu" "disconnect_loop sid cu = Inr (cu', c)"
  shows "registry_ok cu'"
  unfolding registry_ok_def
proof (intro conjI ballI)
  show "distinct (map fst cu')"
    using assms(1) disconnect_loop_keys_distinct[OF assms(2)] by (simp add: registry_ok_def)
next
  fix x assume x: "x \<in> set cu'"
  obtain u s where [simp]: "x = (u, s)" by (cases x)
  from disconnect_loop_entries[OF assms(2), of u s] x assms(1)
  show "case x of (userId, sockets) \<Rightarrow>
          truthy userId \<and> \<not> ToString_throws userId \<and> sockets \<noteq> [] \<and> distinct sockets"
    by (auto simp: registry_ok_def Set_delete_def distinct_removeAll)
qed

lemma handle_ok:
  assumes "registry_ok cu" "handle sid ev cu = Inr (cu', out)"
  shows "registry_ok cu'"
proof (cases ev)
  case (Register u) with assms show ?thesis by (auto dest: register_ok)
next
  case Disconnect with assms show ?thesis
    by (auto simp: disconnect_def split: sum.splits prod.splits dest: disconnect_loop_ok)
qed (use assms in \<open>auto simp: request_online_users_def typing_def stop_typing_def send_message_def
      send_media_def webrtc_offer_def webrtc_answer_def webrtc_ice_def debug_status_def
      split: sum.splits if_splits option.splits\<close>)

lemma run_ok:
  "registry_ok cu \<Longrightarrow> run cu evs = Inr (cu', out) \<Longrightarrow> registry_ok cu'"
proof (induction evs arbitrary: cu out)
  case Nil then show ?case by simp
next
  case (Cons a evs)
  obtain sid ev where [simp]: "a = (sid, ev)" by (cases a)
  from Cons.prems(2) obtain cu1 o1 o2 where
    h: "handle sid ev cu = Inr (cu1, o1)" and r: "run cu1 evs = Inr (cu', o2)"
    by (auto split: sum.splits prod.splits)
  from handle_ok[OF Cons.prems(1) h] Cons.IH r show ?case by blast
qed

lemma registry_ok_empty: "registry_ok []"
  by (simp add: registry_ok_def)

lemma registry_ok_key_iff:
  "registry_ok cu \<Longrightarrow> userId \<in> set (Map_keys cu) \<longleftrightarrow> connectionsOf cu userId \<noteq> []"
  unfolding registry_ok_def connectionsOf_def Map_keys_def
  by (force split: option.splits simp: Map_get_None_iff dest!: Map_get_SomeD)

subsection \<open>Facts about the loop of \<open>disconnect\<close> and about delivery\<close>

lemma disconnect_loop_no_owner:
  "\<forall>(u, s) \<in> set cu. sid \<notin> set s \<Longrightarrow> disconnect_loop sid cu = Inr (cu, JNull)"
  by (induction cu) auto

lemma removeAll_only: "set sockets = {sid} \<Longrightarrow> removeAll sid sockets = []"
  by (auto simp: removeAll_filter_not_eq filter_empty_conv)

lemma disconnect_loop_last:
  "\<forall>(u, s) \<in> set pre. sid \<notin> set s \<Longrightarrow> set sockets = {sid} \<Longrightarrow> \<not> ToString_throws userId \<Longrightarrow>
     disconnect_loop sid (pre @ (userId, sockets) # post) = Inr (pre @ post, userId)"
proof (induction pre)
  case Nil
  then show ?case by (simp add: Set_delete_def removeAll_only)
next
  case (Cons a pre)
  obtain u s where a: "a = (u, s)" by (cases a)
  with Cons.prems have "sid \<notin> set s" by simp
  moreover from Cons have
    "disconnect_loop sid (pre @ (userId, sockets) # post) = Inr (pre @ post, userId)"
    by simp
  ultimately show ?case by (simp add: a)
qed

lemma filter_eq_distinct:
  "distinct live \<Longrightarrow> filter (\<lambda>c. c = h) live = (if h \<in> set live then [h] else [])"
  by (induction live) auto

lemma deliveries_Nil: "deliveries live [] = []"
  by (simp add: deliveries_def)

lemma deliveries_fan_out:
  "distinct live \<Longrightarrow>
     deliveries live (fan_out hs e) = map (\<lambda>h. (h, e)) (filter (\<lambda>h. h \<in> set live) hs)"
  by (induction hs) (simp_all add: fan_out_def deliveries_def filter_eq_distinct)

lemma deliveries_to_self:
  "distinct live \<Longrightarrow> sid \<in> set live \<Longrightarrow>
     deliveries live (map (\<lambda>e. (ToSocket sid, e)) es) = map (\<lambda>e. (sid, e)) es"
  by (induction es) (simp_all add: deliveries_def filter_eq_distinct)

subsection \<open>The relay handlers on an object payload\<close>

lemma send_message_PObject:
  "send_message sid (PObject f) cu =
     (if \<not> truthy (prop_of f ''senderId'') \<or> \<not> truthy (prop_of f ''receiverId'') \<or>
         \<not> truthy (prop_of f ''content'')
      then Inr (cu, [])
      else Inr (cu, fan_out (connectionsOf cu (prop_of f ''receiverId''))
             (ReceiveMessage (prop_of f ''senderId'') (prop_of f ''content'')
                (prop_of f ''messageId'') (prop_of f ''createdAt''))))"
  by (simp add: send_message_def connectionsOf_def fan_out_def split: option.splits)

lemma send_media_PObject:
  "send_media sid (PObject f) cu =
     (if \<not> truthy (prop_of f ''senderId'') \<or> \<not> truthy (prop_of f ''receiverId'') \<or>
         \<not> truthy (prop_of f ''mediaType'')
      then Inr (cu, [])
      else Inr (cu, fan_out (connectionsOf cu (prop_of f ''receiverId''))
             (ReceiveMedia (prop_of f ''senderId'') (prop_of f ''mediaType'')
                (prop_of f ''data'') (prop_of f ''filename'')
                (prop_of f ''messageId'') (prop_of f ''createdAt''))))"
  by (simp add: send_media_def connectionsOf_def fan_out_def split: option.splits)

lemma typing_PObject:
  "typing sid (PObject f) cu =
     (if \<not> truthy (prop_of f ''senderId'') \<or> \<not> truthy (prop_of f ''receiverId'')
      then Inr (cu, [])
      else Inr (cu, fan_out (connectionsOf cu (prop_of f ''receiverId''))
             (Typing (prop_of f ''senderId''))))"
  by (simp add: typing_def connectionsOf_def fan_out_def split: option.splits)

lemma stop_typing_PObject:
  "stop_typing sid (PObject f) cu =
     (if \<not> truthy (prop_of f ''senderId'') \<or> \<not> truthy (prop_of f ''receiverId'')
      then Inr (cu, [])
      else Inr (cu, fan_out (connectionsOf cu (prop_of f ''receiverId''))
             (StopTyping (prop_of f ''senderId''))))"
  by (simp add: stop_typing_def connectionsOf_def fan_out_def split: option.splits)

lemma webrtc_offer_PObject:
  "webrtc_offer sid (PObject f) cu =
     (if \<not> truthy (prop_of f ''receiverId'') \<or> \<not> truthy (prop_of f ''senderId'') \<or>
         \<not> truthy (prop_of f ''offer'')
      then Inr (cu, [])
      else Inr (cu, fan_out (connectionsOf cu (prop_of f ''receiverId''))
             (WebrtcOffer sid (prop_of f ''senderId'') (prop_of f ''offer''))))"
  by (simp add: webrtc_offer_def connectionsOf_def fan_out_def split: option.splits)

lemma webrtc_answer_PObject:
  "webrtc_answer sid (PObject f) cu =
     (if \<not> truthy (prop_of f ''senderSocketId'') \<or> \<not> truthy (prop_of f ''answer'')
      then Inr (cu, [])
      else Inr (cu, [(ToRoom (prop_of f ''senderSocketId''),
                      WebrtcAnswer (prop_of f ''answer'') sid)]))"
  by (simp add: webrtc_answer_def)

lemma prop_of_None: "f k = None \<Longrightarrow> prop_of f k = JUndefined"
  by (simp add: prop_of_def)

lemma prop_of_Some: "f k = Some v \<Longrightarrow> prop_of f k = v"
  by (simp add: prop_of_def)

lemma count_list_distinct: "distinct xs \<Longrightarrow> x \<in> set xs \<Longrightarrow> count_list xs x = 1"
  by (induction xs) auto

lemma Set_add_member: "sid \<in> set (Set_add sid xs)"
  by (simp add: Set_add_def)

lemma Set_add_idem: "Set_add sid (Set_add sid xs) = Set_add sid xs"
  by (simp add: Set_add_def)

lemma connectionsOf_Map_set: "connectionsOf (Map_set cu k v) k = v"
  by (simp add: connectionsOf_def Map_get_set_same)

lemma registry_ok_truthy_keys: "registry_ok cu \<Longrightarrow> k \<in> set (Map_keys cu) \<Longrightarrow> truthy k"
  by (auto simp: registry_ok_def Map_keys_def)

lemma registry_ok_distinct_keys: "registry_ok cu \<Longrightarrow> distinct (Map_keys cu)"
  by (simp add: registry_ok_def Map_keys_def)

subsection \<open>Evaluation on concrete inputs\<close>

text \<open>The unfolding rules that evaluate the handlers on concrete inputs.\<close>

lemmas handler_simps =
  register_def store_socket_def disconnect_def typing_def stop_typing_def send_message_def send_media_def
  webrtc_offer_def webrtc_answer_def webrtc_ice_def request_online_users_def debug_status_def
  Map_has_def Map_keys_def Set_add_def Set_delete_def connectionsOf_def strict_neq_def
  fan_out_def prop_of_def deliveries_def Let_def

text \<open>
  A run used in the examples below: alice opens one connection and bob two.
\<close>

lemma example_run:
  "run [] [(''h1'', Register (JStr ''alice'')), (''h2'', Register (JStr ''bob'')),
           (''h3'', Register (JStr ''bob''))] =
     Inr ([(JStr ''alice'', [''h1'']), (JStr ''bob'', [''h2'', ''h3''])],
          [(ToAll, UserOnline (JStr ''alice'')),
           (ToSocket ''h1'', OnlineUsers [JStr ''alice'']),
           (ToAll, UserOnline (JStr ''bob'')),
           (ToSocket ''h2'', OnlineUsers [JStr ''alice'', JStr ''bob'']),
           (ToSocket ''h2'', UserOnline (JStr ''alice'')),
           (ToAll, UserOnline (JStr ''bob'')),
           (ToSocket ''h3'', OnlineUsers [JStr ''alice'', JStr ''bob'']),
           (ToSocket ''h3'', UserOnline (JStr ''alice''))])"
  by (simp add: handler_simps)

subsection \<open>What the handlers do where they do as specified\<close>

text \<open>
  Three facts about the cases in which \<open>disconnect\<close>, \<open>register\<close> and the relay handlers
  behave as specified; the claims C3, C5 and C7 below are about the cases in which they
  do not.
\<close>

lemma disconnect_first_owner_last_handle:
  assumes "run [] evs = Inr (cu, out0)"
  shows "(cu = pre @ (userId, sockets) # post \<and> (\<forall>(u, s) \<in> set pre. sid \<notin> set s) \<and>
            set sockets = {sid} \<longrightarrow>
          disconnect sid cu = Inr (pre @ post, [(ToAll, UserOffline userId)]) \<and>
          userId \<notin> set (Map_keys (pre @ post)))
       \<and> ((\<forall>(u, s) \<in> set cu. sid \<notin> set s) \<longrightarrow> disconnect sid cu = Inr (cu, []))"
proof (intro conjI impI)
  assume a: "cu = pre @ (userId, sockets) # post \<and> (\<forall>(u, s) \<in> set pre. sid \<notin> set s) \<and>
            set sockets = {sid}"
  have ok: "registry_ok cu" using registry_ok_empty assms by (rule run_ok)
  with a have t: "truthy userId" and c: "\<not> ToString_throws userId"
    by (auto simp: registry_ok_def)
  from a c have "disconnect_loop sid cu = Inr (pre @ post, userId)"
    using disconnect_loop_last[of pre sid sockets userId post] by simp
  with t show "disconnect sid cu = Inr (pre @ post, [(ToAll, UserOffline userId)])"
    by (simp add: disconnect_def)
  from ok a show "userId \<notin> set (Map_keys (pre @ post))"
    by (auto simp: registry_ok_def Map_keys_def)
next
  assume "\<forall>(u, s) \<in> set cu. sid \<notin> set s"
  then show "disconnect sid cu = Inr (cu, [])"
    by (simp add: disconnect_def disconnect_loop_no_owner)
qed

lemma register_emits_when_it_returns:
  assumes "run [] evs = Inr (cu, out0)" and "truthy userId" and "\<not> ToString_throws userId"
    and "distinct live" and "sid \<in> set live"
  shows "\<exists>cu' others.
           others = filter (\<lambda>otherId. otherId \<noteq> userId) (Map_keys cu') \<and>
           register sid userId cu =
             Inr (cu', [(ToAll, UserOnline userId), (ToSocket sid, OnlineUsers (Map_keys cu'))] @
                       map (\<lambda>otherId. (ToSocket sid, UserOnline otherId)) others) \<and>
           Map_keys cu' =
             (if userId \<in> set (Map_keys cu) then Map_keys cu else Map_keys cu @ [userId]) \<and>
           distinct (Map_keys cu') \<and>
           deliveries live [(ToAll, UserOnline userId)] = map (\<lambda>c. (c, UserOnline userId)) live \<and>
           deliveries live ((ToSocket sid, OnlineUsers (Map_keys cu')) #
                            map (\<lambda>otherId. (ToSocket sid, UserOnline otherId)) others) =
             (sid, OnlineUsers (Map_keys cu')) # map (\<lambda>otherId. (sid, UserOnline otherId)) others"
proof -
  define cu' where "cu' = Map_set cu userId (Set_add sid (connectionsOf cu userId))"
  define others where "others = filter (\<lambda>otherId. otherId \<noteq> userId) (Map_keys cu')"
  have ok: "registry_ok cu" using registry_ok_empty assms(1) by (rule run_ok)
  have reg: "register sid userId cu =
      Inr (cu', [(ToAll, UserOnline userId), (ToSocket sid, OnlineUsers (Map_keys cu'))] @
         map (\<lambda>u. (ToSocket sid, UserOnline u))
           (filter (\<lambda>u. strict_neq u userId) (Map_keys cu')))"
    using assms(2,3) by (simp add: register_cases cu'_def Let_def)
  then have ok': "registry_ok cu'" using ok by (rule register_ok[rotated])
  have "filter (\<lambda>u. strict_neq u userId) (Map_keys cu') = others"
    unfolding others_def
    by (rule filter_cong[OF refl])
       (auto simp: strict_neq_def dest: registry_ok_truthy_keys[OF ok'])
  with reg have 1: "register sid userId cu =
      Inr (cu', [(ToAll, UserOnline userId), (ToSocket sid, OnlineUsers (Map_keys cu'))] @
         map (\<lambda>otherId. (ToSocket sid, UserOnline otherId)) others)"
    by simp
  have 2: "Map_keys cu' =
      (if userId \<in> set (Map_keys cu) then Map_keys cu else Map_keys cu @ [userId])"
    by (simp add: cu'_def Map_keys_def Map_set_keys)
  have 3: "distinct (Map_keys cu')" using ok' by (rule registry_ok_distinct_keys)
  have 4: "deliveries live [(ToAll, UserOnline userId)] = map (\<lambda>c. (c, UserOnline userId)) live"
    by (simp add: deliveries_def)
  have "deliveries live (map (\<lambda>e. (ToSocket sid, e))
            (OnlineUsers (Map_keys cu') # map UserOnline others)) =
          map (\<lambda>e. (sid, e)) (OnlineUsers (Map_keys cu') # map UserOnline others)"
    using assms(4,5) by (rule deliveries_to_self)
  then have 5: "deliveries live ((ToSocket sid, OnlineUsers (Map_keys cu')) #
                            map (\<lambda>otherId. (ToSocket sid, UserOnline otherId)) others) =
             (sid, OnlineUsers (Map_keys cu')) # map (\<lambda>otherId. (sid, UserOnline otherId)) others"
    by (simp add: comp_def)
  from others_def 1 2 3 4 5 show ?thesis by blast
qed

lemma relay_object_missing_field_dropped:
  "(f ''senderId'' = None \<or> f ''receiverId'' = None \<or> f ''content'' = None \<longrightarrow>
      send_message sid (PObject f) cu = Inr (cu, []))
   \<and> (f ''senderId'' = None \<or> f ''receiverId'' = None \<or> f ''mediaType'' = None \<longrightarrow>
      send_media sid (PObject f) cu = Inr (cu, []))
   \<and> (f ''senderId'' = None \<or> f ''receiverId'' = None \<longrightarrow>
      typing sid (PObject f) cu = Inr (cu, []) \<and> stop_typing sid (PObject f) cu = Inr (cu, []))
   \<and> send_message sid PPrimitive cu = Inr (cu, [])
   \<and> send_media sid PPrimitive cu = Inr (cu, [])
   \<and> typing sid PPrimitive cu = Inr (cu, [])
   \<and> stop_typing sid PPrimitive cu = Inr (cu, [])
   \<and> deliveries live [] = []"
proof (intro conjI impI)
  assume "f ''senderId'' = None \<or> f ''receiverId'' = None \<or> f ''content'' = None"
  then show "send_message sid (PObject f) cu = Inr (cu, [])"
    by (auto simp: send_message_PObject prop_of_None)
next
  assume "f ''senderId'' = None \<or> f ''receiverId'' = None \<or> f ''mediaType'' = None"
  then show "send_media sid (PObject f) cu = Inr (cu, [])"
    by (auto simp: send_media_PObject prop_of_None)
next
  assume "f ''senderId'' = None \<or> f ''receiverId'' = None"
  then show "typing sid (PObject f) cu = Inr (cu, [])"
    by (auto simp: typing_PObject prop_of_None)
next
  assume "f ''senderId'' = None \<or> f ''receiverId'' = None"
  then show "stop_typing sid (PObject f) cu = Inr (cu, [])"
    by (auto simp: stop_typing_PObject prop_of_None)
next
  show "send_message sid PPrimitive cu = Inr (cu, [])" by (simp add: send_message_def)
  show "send_media sid PPrimitive cu = Inr (cu, [])" by (simp add: send_media_def)
  show "typing sid PPrimitive cu = Inr (cu, [])" by (simp add: typing_def)
  show "stop_typing sid PPrimitive cu = Inr (cu, [])" by (simp add: stop_typing_def)
  show "deliveries live [] = []" by (rule deliveries_Nil)
qed

section \<open>The claims\<close>

text \<open>
  C1. For every finite sequence of events, handled from the empty registry, and at every
  point between two events (a prefix of a sequence is a sequence), a user id is a key of
  the registry if and only if its set of handles is non-empty: no empty set lingers, and
  a disconnect that empties a set deletes the key in the same step.
\<close>

theorem registry_key_iff_nonempty:
  assumes "run [] evs = Inr (cu, out)"
  shows "userId \<in> set (Map_keys cu) \<longleftrightarrow> connectionsOf cu userId \<noteq> []"
proof -
  have "registry_ok cu"
    using registry_ok_empty assms by (rule run_ok)
  then show ?thesis by (rule registry_ok_key_iff)
qed

theorem registry_key_iff_nonempty_witness:
  "run [] [(''h1'', Register (JStr ''alice'')), (''h2'', Register (JStr ''bob'')),
           (''h3'', Register (JStr ''bob'')), (''h2'', Disconnect), (''h3'', Disconnect)]
     = Inr ([(JStr ''alice'', [''h1''])],
            [(ToAll, UserOnline (JStr ''alice'')),
             (ToSocket ''h1'', OnlineUsers [JStr ''alice'']),
             (ToAll, UserOnline (JStr ''bob'')),
             (ToSocket ''h2'', OnlineUsers [JStr ''alice'', JStr ''bob'']),
             (ToSocket ''h2'', UserOnline (JStr ''alice'')),
             (ToAll, UserOnline (JStr ''bob'')),
             (ToSocket ''h3'', OnlineUsers [JStr ''alice'', JStr ''bob'']),
             (ToSocket ''h3'', UserOnline (JStr ''alice'')),
             (ToAll, UserOffline (JStr ''bob''))])
   \<and> JStr ''bob'' \<notin> set (Map_keys [(JStr ''alice'', [''h1''])])
   \<and> connectionsOf [(JStr ''alice'', [''h1''])] (JStr ''bob'') = []
   \<and> JStr ''alice'' \<in> set (Map_keys [(JStr ''alice'', [''h1''])])
   \<and> connectionsOf [(JStr ''alice'', [''h1''])] (JStr ''alice'') = [''h1'']"
proof -
  have h: "run [] [(''h1'', Register (JStr ''alice'')), (''h2'', Register (JStr ''bob'')),
           (''h3'', Register (JStr ''bob'')), (''h2'', Disconnect), (''h3'', Disconnect)]
     = Inr ([(JStr ''alice'', [''h1''])],
            [(ToAll, UserOnline (JStr ''alice'')),
             (ToSocket ''h1'', OnlineUsers [JStr ''alice'']),
             (ToAll, UserOnline (JStr ''bob'')),
             (ToSocket ''h2'', OnlineUsers [JStr ''alice'', JStr ''bob'']),
             (ToSocket ''h2'', UserOnline (JStr ''alice'')),
             (ToAll, UserOnline (JStr ''bob'')),
             (ToSocket ''h3'', OnlineUsers [JStr ''alice'', JStr ''bob'']),
             (ToSocket ''h3'', UserOnline (JStr ''alice'')),
             (ToAll, UserOffline (JStr ''bob''))])"
    by (simp add: handler_simps)
  show ?thesis
    using h registry_key_iff_nonempty [OF h, of "JStr ''bob''"]
      registry_key_iff_nonempty [OF h, of "JStr ''alice''"]
    by (simp add: connectionsOf_def)
qed

text \<open>
  C2. Each connection handle is under at most one user id, and a handle registered again
  under another user belongs to the new user only. The handler of \<open>register\<close> adds the
  socket to the set of the new user and leaves it in the set of the old one: after
  \<open>register("alice")\<close> and \<open>register("bob")\<close> on the same connection \<open>h1\<close>, the handle
  is under both. The loop of \<open>disconnect\<close> ("find which user this socket belonged to")
  stops at the first owner, so closing \<open>h1\<close> announces alice offline and leaves bob in
  the registry with a handle of a connection that is gone.
\<close>

theorem re_register_keeps_handle_under_both_users:
  "run [] [(''h1'', Register (JStr ''alice'')), (''h1'', Register (JStr ''bob''))] =
     Inr ([(JStr ''alice'', [''h1'']), (JStr ''bob'', [''h1''])],
          [(ToAll, UserOnline (JStr ''alice'')),
           (ToSocket ''h1'', OnlineUsers [JStr ''alice'']),
           (ToAll, UserOnline (JStr ''bob'')),
           (ToSocket ''h1'', OnlineUsers [JStr ''alice'', JStr ''bob'']),
           (ToSocket ''h1'', UserOnline (JStr ''alice''))])
   \<and> disconnect ''h1'' [(JStr ''alice'', [''h1'']), (JStr ''bob'', [''h1''])] =
     Inr ([(JStr ''bob'', [''h1''])], [(ToAll, UserOffline (JStr ''alice''))])"
  by (simp add: handler_simps)

text \<open>
  C3. When a disconnect removes the last remaining handle of a user, exactly one
  \<open>user_offline\<close> is emitted and the key is removed. The loop of \<open>disconnect\<close> stops at
  the first user that has the socket, so this fails for a socket that is under two
  users, which \<open>register\<close> allows (C2): alice registers on \<open>h1\<close> and on \<open>h2\<close>, bob
  registers on \<open>h1\<close>, and \<open>h1\<close> is the only handle of bob. When \<open>h1\<close> closes, the handler
  takes it out of the set of alice only: it emits nothing, and bob stays a key of the
  registry with the handle of a connection that is gone.
\<close>

theorem disconnect_of_shared_handle_announces_nothing:
  "run [] [(''h1'', Register (JStr ''alice'')), (''h2'', Register (JStr ''alice'')),
           (''h1'', Register (JStr ''bob''))] =
     Inr ([(JStr ''alice'', [''h1'', ''h2'']), (JStr ''bob'', [''h1''])],
          [(ToAll, UserOnline (JStr ''alice'')),
           (ToSocket ''h1'', OnlineUsers [JStr ''alice'']),
           (ToAll, UserOnline (JStr ''alice'')),
           (ToSocket ''h2'', OnlineUsers [JStr ''alice'']),
           (ToAll, UserOnline (JStr ''bob'')),
           (ToSocket ''h1'', OnlineUsers [JStr ''alice'', JStr ''bob'']),
           (ToSocket ''h1'', UserOnline (JStr ''alice''))])
   \<and> connectionsOf [(JStr ''alice'', [''h1'', ''h2'']), (JStr ''bob'', [''h1''])] (JStr ''bob'')
       = [''h1'']
   \<and> disconnect ''h1'' [(JStr ''alice'', [''h1'', ''h2'']), (JStr ''bob'', [''h1''])] =
       Inr ([(JStr ''alice'', [''h2'']), (JStr ''bob'', [''h1''])], [])"
  by (simp add: handler_simps)

text \<open>
  C4, as stated, fails where a required field is present but falsy: a \<open>send_message\<close>
  with \<open>senderId\<close>, \<open>receiverId\<close> and \<open>content\<close> all present, \<open>content\<close> being the empty
  string, to a receiver with the two handles \<open>h2\<close> and \<open>h3\<close>, makes no \<open>emit\<close> at all: the
  guard \<open>!content\<close> returns first.
\<close>

theorem send_message_empty_content_counterexample:
  "map_of [(''senderId'', JStr ''alice''), (''receiverId'', JStr ''bob''),
           (''content'', JStr '''')] ''senderId'' = Some (JStr ''alice'')
   \<and> map_of [(''senderId'', JStr ''alice''), (''receiverId'', JStr ''bob''),
           (''content'', JStr '''')] ''receiverId'' = Some (JStr ''bob'')
   \<and> map_of [(''senderId'', JStr ''alice''), (''receiverId'', JStr ''bob''),
           (''content'', JStr '''')] ''content'' = Some (JStr '''')
   \<and> connectionsOf [(JStr ''alice'', [''h1'']), (JStr ''bob'', [''h2'', ''h3''])] (JStr ''bob'')
       = [''h2'', ''h3'']
   \<and> send_message ''h1''
       (PObject (map_of [(''senderId'', JStr ''alice''), (''receiverId'', JStr ''bob''),
                         (''content'', JStr '''')]))
       [(JStr ''alice'', [''h1'']), (JStr ''bob'', [''h2'', ''h3''])]
       = Inr ([(JStr ''alice'', [''h1'']), (JStr ''bob'', [''h2'', ''h3''])], [])
   \<and> deliveries [''h1'', ''h2'', ''h3''] [] = []"
  by (simp add: handler_simps)

text \<open>
  C4, amended. In a registry reached by a run, a \<open>send_message\<close> whose \<open>senderId\<close>,
  \<open>receiverId\<close> and \<open>content\<close> are all truthy (hence present) throws nothing, leaves the
  registry as it is, and is delivered as exactly one \<open>receive_message\<close> to each open
  connection among the handles of the receiver and to no other connection, with the
  \<open>senderId\<close>, \<open>content\<close>, \<open>messageId\<close> and \<open>createdAt\<close> of the payload unchanged; the
  handles of a user are pairwise different, and when the receiver is not a key of the
  registry there is no \<open>emit\<close>.
\<close>

theorem send_message_fan_out:
  assumes "run [] evs = Inr (cu, out0)"
    and "truthy (prop_of f ''senderId'')" and "truthy (prop_of f ''receiverId'')"
    and "truthy (prop_of f ''content'')"
    and "distinct live"
  shows "\<exists>out. send_message sid (PObject f) cu = Inr (cu, out) \<and>
           deliveries live out =
             map (\<lambda>h. (h, ReceiveMessage (prop_of f ''senderId'') (prop_of f ''content'')
                            (prop_of f ''messageId'') (prop_of f ''createdAt'')))
               (filter (\<lambda>h. h \<in> set live) (connectionsOf cu (prop_of f ''receiverId''))) \<and>
           distinct (connectionsOf cu (prop_of f ''receiverId'')) \<and>
           (Map_get cu (prop_of f ''receiverId'') = None \<longrightarrow> out = [])"
proof -
  have ok: "registry_ok cu" using registry_ok_empty assms(1) by (rule run_ok)
  let ?e = "ReceiveMessage (prop_of f ''senderId'') (prop_of f ''content'')
              (prop_of f ''messageId'') (prop_of f ''createdAt'')"
  let ?out = "fan_out (connectionsOf cu (prop_of f ''receiverId'')) ?e"
  have 1: "send_message sid (PObject f) cu = Inr (cu, ?out)"
    using assms(2-4) by (simp add: send_message_PObject)
  have 2: "deliveries live ?out =
      map (\<lambda>h. (h, ?e)) (filter (\<lambda>h. h \<in> set live) (connectionsOf cu (prop_of f ''receiverId'')))"
    using assms(5) by (rule deliveries_fan_out)
  have 3: "distinct (connectionsOf cu (prop_of f ''receiverId''))"
    using ok by (rule registry_ok_sockets)
  have 4: "Map_get cu (prop_of f ''receiverId'') = None \<longrightarrow> ?out = []"
    by (simp add: connectionsOf_def fan_out_def)
  show ?thesis
    by (rule exI[of _ ?out]) (intro conjI 1 2 3 4)
qed

theorem send_message_fan_out_witness:
  "\<exists>out. send_message ''h1''
       (PObject [''senderId'' \<mapsto> JStr ''alice'', ''receiverId'' \<mapsto> JStr ''bob'',
                 ''content'' \<mapsto> JStr ''hi''])
       [(JStr ''alice'', [''h1'']), (JStr ''bob'', [''h2'', ''h3''])] =
         Inr ([(JStr ''alice'', [''h1'']), (JStr ''bob'', [''h2'', ''h3''])], out)
     \<and> deliveries [''h1'', ''h2'', ''h3''] out =
         [(''h2'', ReceiveMessage (JStr ''alice'') (JStr ''hi'') JUndefined JUndefined),
          (''h3'', ReceiveMessage (JStr ''alice'') (JStr ''hi'') JUndefined JUndefined)]"
  using send_message_fan_out [OF example_run,
      of "[''senderId'' \<mapsto> JStr ''alice'', ''receiverId'' \<mapsto> JStr ''bob'',
           ''content'' \<mapsto> JStr ''hi'']" "[''h1'', ''h2'', ''h3'']" "''h1''"]
  by (simp add: prop_of_def connectionsOf_def)

text \<open>
  C5. On every registration with a non-empty user id the handler broadcasts
  \<open>user_online\<close>, sends \<open>online_users\<close> to the registering connection and then one
  \<open>user_online\<close> for every other user. Between the store and the first \<open>emit\<close> the handler
  logs \<open>`${userId} registered ...`\<close>, and for a user id whose conversion to a string
  throws, such as the object \<open>{toString: 1}\<close>, that line throws a \<open>TypeError\<close>: the user
  id is truthy, the registry has been written, and no \<open>emit\<close> is made. For every other
  truthy user id the sequence is the stated one (\<open>register_emits_when_it_returns\<close>).
\<close>

theorem register_unprintable_id_throws_before_emit:
  "truthy (JBadObj r)
   \<and> store_socket sid (JBadObj r) cu =
       Inr (Map_set cu (JBadObj r) (Set_add sid (connectionsOf cu (JBadObj r))))
   \<and> register sid (JBadObj r) cu = Inl TypeError
   \<and> store_socket ''h1'' (JBadObj 0) [] = Inr [(JBadObj 0, [''h1''])]
   \<and> run [] [(''h1'', Register (JBadObj 0))] = Inl TypeError"
  by (simp add: store_socket_eq register_cases) (simp add: handler_simps)

text \<open>
  C6. Every \<open>emit\<close> of \<open>webrtc_offer\<close> on connection \<open>c\<close> goes to the room of a handle of
  the receiver and carries \<open>senderSocketId = c\<close>; with \<open>receiverId\<close>, \<open>senderId\<close> and
  \<open>offer\<close> truthy there is one for each handle. A \<open>webrtc_answer\<close> whose \<open>senderSocketId\<close>
  is \<open>c\<close> throws nothing, does not depend on the registry, and reaches no connection
  other than \<open>c\<close>: \<open>c\<close> once when it is open and the \<open>answer\<close> is truthy, nobody when
  \<open>c\<close> is closed.
\<close>

theorem webrtc_offer_answer_routing:
  "(\<exists>out. webrtc_offer c (PObject f) cu = Inr (cu, out) \<and>
        (\<forall>(t, e) \<in> set out. \<exists>h senderId offer.
            t = ToRoom (JStr h) \<and> h \<in> set (connectionsOf cu (prop_of f ''receiverId'')) \<and>
            e = WebrtcOffer c senderId offer) \<and>
        (truthy (prop_of f ''receiverId'') \<and> truthy (prop_of f ''senderId'') \<and>
         truthy (prop_of f ''offer'') \<longrightarrow>
           out = fan_out (connectionsOf cu (prop_of f ''receiverId''))
                   (WebrtcOffer c (prop_of f ''senderId'') (prop_of f ''offer''))))
   \<and> (g ''senderSocketId'' = Some (JStr c) \<longrightarrow>
       (\<exists>out. webrtc_answer r (PObject g) cu = Inr (cu, out) \<and>
          fst ` set (deliveries live out) \<subseteq> {c} \<and>
          (c \<notin> set live \<longrightarrow> deliveries live out = []) \<and>
          (c \<in> set live \<and> distinct live \<and> c \<noteq> [] \<and> truthy (prop_of g ''answer'') \<longrightarrow>
             deliveries live out = [(c, WebrtcAnswer (prop_of g ''answer'') r)])))"
proof (intro conjI impI)
  let ?hs = "connectionsOf cu (prop_of f ''receiverId'')"
  let ?ok = "truthy (prop_of f ''receiverId'') \<and> truthy (prop_of f ''senderId'') \<and>
         truthy (prop_of f ''offer'')"
  let ?out = "if ?ok then fan_out ?hs (WebrtcOffer c (prop_of f ''senderId'') (prop_of f ''offer''))
              else []"
  have "webrtc_offer c (PObject f) cu = Inr (cu, ?out)"
    by (simp add: webrtc_offer_PObject)
  moreover have "\<forall>(t, e) \<in> set ?out. \<exists>h senderId offer.
            t = ToRoom (JStr h) \<and> h \<in> set ?hs \<and> e = WebrtcOffer c senderId offer"
    by (auto simp: fan_out_def)
  moreover have "?ok \<longrightarrow> ?out = fan_out ?hs (WebrtcOffer c (prop_of f ''senderId'') (prop_of f ''offer''))"
    by simp
  ultimately show "\<exists>out. webrtc_offer c (PObject f) cu = Inr (cu, out) \<and>
        (\<forall>(t, e) \<in> set out. \<exists>h senderId offer.
            t = ToRoom (JStr h) \<and> h \<in> set ?hs \<and> e = WebrtcOffer c senderId offer) \<and>
        (?ok \<longrightarrow> out = fan_out ?hs (WebrtcOffer c (prop_of f ''senderId'') (prop_of f ''offer'')))"
    by blast
next
  assume g: "g ''senderSocketId'' = Some (JStr c)"
  then have p: "prop_of g ''senderSocketId'' = JStr c" by (rule prop_of_Some)
  let ?a = "prop_of g ''answer''"
  let ?out = "if c \<noteq> [] \<and> truthy ?a then [(ToRoom (JStr c), WebrtcAnswer ?a r)] else []"
  have 1: "webrtc_answer r (PObject g) cu = Inr (cu, ?out)"
    by (simp add: webrtc_answer_PObject p)
  have 2: "fst ` set (deliveries live ?out) \<subseteq> {c}"
    by (auto simp: deliveries_def)
  have 3: "c \<notin> set live \<longrightarrow> deliveries live ?out = []"
    by (auto simp: deliveries_def filter_empty_conv)
  have 4: "c \<in> set live \<and> distinct live \<and> c \<noteq> [] \<and> truthy ?a \<longrightarrow>
             deliveries live ?out = [(c, WebrtcAnswer ?a r)]"
    by (simp add: deliveries_def filter_eq_distinct)
  from 1 2 3 4
  show "\<exists>out. webrtc_answer r (PObject g) cu = Inr (cu, out) \<and>
          fst ` set (deliveries live out) \<subseteq> {c} \<and>
          (c \<notin> set live \<longrightarrow> deliveries live out = []) \<and>
          (c \<in> set live \<and> distinct live \<and> c \<noteq> [] \<and> truthy ?a \<longrightarrow>
             deliveries live out = [(c, WebrtcAnswer ?a r)])"
    by blast
qed

theorem webrtc_offer_answer_routing_witness:
  "(\<exists>out. webrtc_offer ''h1''
        (PObject [''receiverId'' \<mapsto> JStr ''bob'', ''senderId'' \<mapsto> JStr ''alice'',
                  ''offer'' \<mapsto> JObj 1])
        [(JStr ''alice'', [''h1'']), (JStr ''bob'', [''h2'', ''h3''])] =
          Inr ([(JStr ''alice'', [''h1'']), (JStr ''bob'', [''h2'', ''h3''])], out)
      \<and> out = [(ToRoom (JStr ''h2''), WebrtcOffer ''h1'' (JStr ''alice'') (JObj 1)),
               (ToRoom (JStr ''h3''), WebrtcOffer ''h1'' (JStr ''alice'') (JObj 1))])
   \<and> (\<exists>out. webrtc_answer ''h2''
        (PObject [''senderSocketId'' \<mapsto> JStr ''h1'', ''answer'' \<mapsto> JObj 2])
        [(JStr ''alice'', [''h1'']), (JStr ''bob'', [''h2'', ''h3''])] =
          Inr ([(JStr ''alice'', [''h1'']), (JStr ''bob'', [''h2'', ''h3''])], out)
      \<and> deliveries [''h1'', ''h2'', ''h3''] out = [(''h1'', WebrtcAnswer (JObj 2) ''h2'')])
   \<and> (\<exists>out. webrtc_answer ''h2''
        (PObject [''senderSocketId'' \<mapsto> JStr ''h1'', ''answer'' \<mapsto> JObj 2])
        [(JStr ''bob'', [''h2'', ''h3''])] =
          Inr ([(JStr ''bob'', [''h2'', ''h3''])], out)
      \<and> deliveries [''h2'', ''h3''] out = [])"
  using webrtc_offer_answer_routing
      [of "''h1''"
          "[''receiverId'' \<mapsto> JStr ''bob'', ''senderId'' \<mapsto> JStr ''alice'', ''offer'' \<mapsto> JObj 1]"
          "[(JStr ''alice'', [''h1'']), (JStr ''bob'', [''h2'', ''h3''])]"
          "[''senderSocketId'' \<mapsto> JStr ''h1'', ''answer'' \<mapsto> JObj 2]"
          "''h2''" "[''h1'', ''h2'', ''h3'']"]
    webrtc_offer_answer_routing
      [of "''h1''"
          "[''receiverId'' \<mapsto> JStr ''bob'', ''senderId'' \<mapsto> JStr ''alice'', ''offer'' \<mapsto> JObj 1]"
          "[(JStr ''bob'', [''h2'', ''h3''])]"
          "[''senderSocketId'' \<mapsto> JStr ''h1'', ''answer'' \<mapsto> JObj 2]"
          "''h2''" "[''h2'', ''h3'']"]
  by (simp add: prop_of_def connectionsOf_def fan_out_def) blast

text \<open>
  C7. A payload that lacks a required field is dropped by \<open>send_message\<close>, \<open>send_media\<close>,
  \<open>typing\<close> and \<open>stop_typing\<close> with no delivery, no change of the registry and no error.
  A payload that is \<open>null\<close> or absent lacks every field, and there the four handlers
  throw a \<open>TypeError\<close> while destructuring their argument, before the guard: a run in
  which a client sends \<open>send_message\<close> with \<open>null\<close> ends with the exception. (The same
  defect as in C8.) An object without a required property and a boolean, number or
  string are dropped as stated (\<open>relay_object_missing_field_dropped\<close>).
\<close>

theorem relay_null_payload_throws:
  "send_message sid PNull cu = Inl TypeError \<and> send_message sid PUndefined cu = Inl TypeError
   \<and> send_media sid PNull cu = Inl TypeError \<and> send_media sid PUndefined cu = Inl TypeError
   \<and> typing sid PNull cu = Inl TypeError \<and> typing sid PUndefined cu = Inl TypeError
   \<and> stop_typing sid PNull cu = Inl TypeError \<and> stop_typing sid PUndefined cu = Inl TypeError
   \<and> run [] [(''h1'', Register (JStr ''alice'')), (''h2'', Register (JStr ''bob'')),
              (''h1'', SendMessage PNull)] = Inl TypeError"
  by (simp add: handler_simps)

theorem relay_null_payload_throws_witness:
  "send_message ''h1'' PNull [(JStr ''alice'', [''h1'']), (JStr ''bob'', [''h2''])] = Inl TypeError
   \<and> send_media ''h1'' PUndefined [(JStr ''alice'', [''h1'']), (JStr ''bob'', [''h2''])]
       = Inl TypeError
   \<and> typing ''h1'' PNull [(JStr ''alice'', [''h1'']), (JStr ''bob'', [''h2''])] = Inl TypeError
   \<and> stop_typing ''h1'' PUndefined [(JStr ''alice'', [''h1'']), (JStr ''bob'', [''h2''])]
       = Inl TypeError"
  using relay_null_payload_throws
      [of "''h1''" "[(JStr ''alice'', [''h1'']), (JStr ''bob'', [''h2''])]"]
  by simp

text \<open>
  C8. No handler throws, whatever the payload, absent and \<open>null\<close> included. The handlers
  that destructure their argument in the parameter list do throw on an absent and on a
  \<open>null\<close> payload, before their guards run: \<open>typing\<close>, \<open>stop_typing\<close>, \<open>send_message\<close>,
  \<open>send_media\<close>, \<open>webrtc_offer\<close>, \<open>webrtc_answer\<close> and \<open>webrtc_ice\<close> end in a \<open>TypeError\<close>,
  and so does a run in which a client sends \<open>typing\<close> without an argument.
\<close>

theorem absent_payload_throws:
  "typing sid PUndefined cu = Inl TypeError \<and> typing sid PNull cu = Inl TypeError
   \<and> stop_typing sid PUndefined cu = Inl TypeError \<and> stop_typing sid PNull cu = Inl TypeError
   \<and> send_message sid PUndefined cu = Inl TypeError \<and> send_message sid PNull cu = Inl TypeError
   \<and> send_media sid PUndefined cu = Inl TypeError \<and> send_media sid PNull cu = Inl TypeError
   \<and> webrtc_offer sid PUndefined cu = Inl TypeError \<and> webrtc_offer sid PNull cu = Inl TypeError
   \<and> webrtc_answer sid PUndefined cu = Inl TypeError \<and> webrtc_answer sid PNull cu = Inl TypeError
   \<and> webrtc_ice sid PUndefined cu = Inl TypeError \<and> webrtc_ice sid PNull cu = Inl TypeError
   \<and> run [] [(''h1'', Register (JStr ''alice'')), (''h2'', TypingEv PUndefined)] = Inl TypeError"
  by (simp add: handler_simps)

theorem absent_payload_throws_witness:
  "typing ''h2'' PUndefined [(JStr ''alice'', [''h1''])] = Inl TypeError
   \<and> send_message ''h2'' PNull [(JStr ''alice'', [''h1''])] = Inl TypeError
   \<and> webrtc_answer ''h2'' PUndefined [(JStr ''alice'', [''h1''])] = Inl TypeError"
  using absent_payload_throws [of "''h2''" "[(JStr ''alice'', [''h1''])]"]
  by simp

text \<open>
  C9. \<open>register\<close> is idempotent on the registry. In a registry reached by a run, for
  every user id and handle: the store of \<open>register\<close> does not throw, applied to the
  registry it has written it writes the same registry again, and the handle occurs
  exactly once in the set of the user. So when the handler returns, a second call on the
  registry it left returns and leaves that registry, which for a truthy user id is the
  stored one; and when the handler throws at its log line, it has written that registry
  and a second call on it throws in the same way.
\<close>

theorem register_idempotent:
  assumes "run [] evs = Inr (cu, out0)"
  shows "\<exists>cu1.
           store_socket sid userId cu = Inr cu1 \<and>
           store_socket sid userId cu1 = Inr cu1 \<and>
           count_list (connectionsOf cu1 userId) sid = 1 \<and>
           (\<forall>cu' out1. register sid userId cu = Inr (cu', out1) \<longrightarrow>
              (\<exists>out2. register sid userId cu' = Inr (cu', out2)) \<and>
              (truthy userId \<longrightarrow> cu' = cu1)) \<and>
           (\<forall>e. register sid userId cu = Inl e \<longrightarrow> register sid userId cu1 = Inl e)"
proof -
  define cu1 where "cu1 = Map_set cu userId (Set_add sid (connectionsOf cu userId))"
  have ok: "registry_ok cu" using registry_ok_empty assms by (rule run_ok)
  have c1: "connectionsOf cu1 userId = Set_add sid (connectionsOf cu userId)"
    by (simp add: cu1_def connectionsOf_Map_set)
  have again: "Map_set cu1 userId (Set_add sid (connectionsOf cu1 userId)) = cu1"
    by (simp add: c1 Set_add_idem) (simp add: cu1_def Map_set_set)
  have 1: "store_socket sid userId cu = Inr cu1"
    by (simp add: store_socket_eq cu1_def)
  have 2: "store_socket sid userId cu1 = Inr cu1"
    by (simp add: store_socket_eq again)
  have "distinct (connectionsOf cu1 userId)"
    unfolding c1 using ok by (intro distinct_Set_add registry_ok_sockets)
  then have 3: "count_list (connectionsOf cu1 userId) sid = 1"
    by (rule count_list_distinct) (simp add: c1 Set_add_member)
  have 4: "\<forall>cu' out1. register sid userId cu = Inr (cu', out1) \<longrightarrow>
              (\<exists>out2. register sid userId cu' = Inr (cu', out2)) \<and>
              (truthy userId \<longrightarrow> cu' = cu1)"
  proof (intro allI impI)
    fix cu' out1
    assume r: "register sid userId cu = Inr (cu', out1)"
    show "(\<exists>out2. register sid userId cu' = Inr (cu', out2)) \<and> (truthy userId \<longrightarrow> cu' = cu1)"
    proof (cases "truthy userId")
      case False
      with r show ?thesis by (simp add: register_cases)
    next
      case True
      with r have n: "\<not> ToString_throws userId" and e: "cu' = cu1"
        by (auto simp: register_cases cu1_def Let_def split: if_splits)
      from True n again show ?thesis
        unfolding e by (simp add: register_cases Let_def)
    qed
  qed
  have 5: "\<forall>e. register sid userId cu = Inl e \<longrightarrow> register sid userId cu1 = Inl e"
    by (auto simp: register_cases Let_def split: if_splits)
  show ?thesis
    by (rule exI[of _ cu1]) (intro conjI 1 2 3 4 5)
qed

theorem register_idempotent_witness:
  "store_socket ''h1'' (JStr ''alice'') [(JStr ''alice'', [''h1''])] =
       Inr [(JStr ''alice'', [''h1''])]
   \<and> count_list (connectionsOf [(JStr ''alice'', [''h1''])] (JStr ''alice'')) ''h1'' = 1
   \<and> (\<exists>out2. register ''h1'' (JStr ''alice'') [(JStr ''alice'', [''h1''])] =
         Inr ([(JStr ''alice'', [''h1''])], out2))"
proof -
  have h: "run [] [(''h1'', Register (JStr ''alice''))] =
      Inr ([(JStr ''alice'', [''h1''])],
           [(ToAll, UserOnline (JStr ''alice'')), (ToSocket ''h1'', OnlineUsers [JStr ''alice''])])"
    by (simp add: handler_simps)
  from register_idempotent [OF h, of "''h1''" "JStr ''alice''"]
  obtain cu1 where
    s: "store_socket ''h1'' (JStr ''alice'') [(JStr ''alice'', [''h1''])] = Inr cu1" and
    c: "count_list (connectionsOf cu1 (JStr ''alice'')) ''h1'' = 1" and
    r: "\<forall>cu' out1. register ''h1'' (JStr ''alice'') [(JStr ''alice'', [''h1''])] = Inr (cu', out1) \<longrightarrow>
              (\<exists>out2. register ''h1'' (JStr ''alice'') cu' = Inr (cu', out2)) \<and>
              (truthy (JStr ''alice'') \<longrightarrow> cu' = cu1)"
    by blast
  have e: "cu1 = [(JStr ''alice'', [''h1''])]"
    using s by (simp add: handler_simps)
  have g: "register ''h1'' (JStr ''alice'') [(JStr ''alice'', [''h1''])] =
      Inr ([(JStr ''alice'', [''h1''])],
           [(ToAll, UserOnline (JStr ''alice'')), (ToSocket ''h1'', OnlineUsers [JStr ''alice''])])"
    by (simp add: handler_simps)
  from r g have "\<exists>out2. register ''h1'' (JStr ''alice'') [(JStr ''alice'', [''h1''])] =
         Inr ([(JStr ''alice'', [''h1''])], out2)"
    by blast
  with s c show ?thesis unfolding e by simp
qed

text \<open>
  C10. A required property that is present with a falsy value (\<open>false\<close>, \<open>0\<close>, \<open>NaN\<close>,
  \<open>null\<close>, \<open>undefined\<close> or the empty string) has the effect of a missing one:
  \<open>send_message\<close>, \<open>send_media\<close>, \<open>typing\<close> and \<open>stop_typing\<close> make no \<open>emit\<close>, leave the
  registry unchanged and throw nothing.
\<close>

theorem relay_falsy_field_dropped:
  assumes "f k = Some v" and "\<not> truthy v"
  shows "(k \<in> {''senderId'', ''receiverId'', ''content''} \<longrightarrow>
            send_message sid (PObject f) cu = Inr (cu, []))
       \<and> (k \<in> {''senderId'', ''receiverId'', ''mediaType''} \<longrightarrow>
            send_media sid (PObject f) cu = Inr (cu, []))
       \<and> (k \<in> {''senderId'', ''receiverId''} \<longrightarrow>
            typing sid (PObject f) cu = Inr (cu, []) \<and>
            stop_typing sid (PObject f) cu = Inr (cu, []))"
proof -
  have v: "\<not> truthy (prop_of f k)" using assms by (simp add: prop_of_Some)
  show ?thesis
  proof (intro conjI impI)
    assume "k \<in> {''senderId'', ''receiverId'', ''content''}"
    with v show "send_message sid (PObject f) cu = Inr (cu, [])"
      unfolding send_message_PObject by auto
  next
    assume "k \<in> {''senderId'', ''receiverId'', ''mediaType''}"
    with v show "send_media sid (PObject f) cu = Inr (cu, [])"
      unfolding send_media_PObject by auto
  next
    assume "k \<in> {''senderId'', ''receiverId''}"
    with v show "typing sid (PObject f) cu = Inr (cu, [])"
      unfolding typing_PObject by auto
  next
    assume "k \<in> {''senderId'', ''receiverId''}"
    with v show "stop_typing sid (PObject f) cu = Inr (cu, [])"
      unfolding stop_typing_PObject by auto
  qed
qed

theorem relay_falsy_field_dropped_witness:
  "send_message ''h1''
       (PObject [''senderId'' \<mapsto> JStr ''alice'', ''receiverId'' \<mapsto> JStr ''bob'',
                 ''content'' \<mapsto> JStr ''''])
       [(JStr ''bob'', [''h2''])] = Inr ([(JStr ''bob'', [''h2''])], [])
   \<and> send_media ''h1''
       (PObject [''senderId'' \<mapsto> JStr ''alice'', ''receiverId'' \<mapsto> JStr ''bob'',
                 ''mediaType'' \<mapsto> JStr '''', ''data'' \<mapsto> JStr ''AAAA''])
       [(JStr ''bob'', [''h2''])] = Inr ([(JStr ''bob'', [''h2''])], [])"
proof -
  have c: "[''senderId'' \<mapsto> JStr ''alice'', ''receiverId'' \<mapsto> JStr ''bob'',
            ''content'' \<mapsto> JStr ''''] ''content'' = Some (JStr '''')"
    by simp
  have m: "[''senderId'' \<mapsto> JStr ''alice'', ''receiverId'' \<mapsto> JStr ''bob'',
            ''mediaType'' \<mapsto> JStr '''', ''data'' \<mapsto> JStr ''AAAA''] ''mediaType'' = Some (JStr '''')"
    by simp
  have f: "\<not> truthy (JStr '''')" by simp
  show ?thesis
    using relay_falsy_field_dropped
        [of "[''senderId'' \<mapsto> JStr ''alice'', ''receiverId'' \<mapsto> JStr ''bob'',
              ''content'' \<mapsto> JStr '''']" "''content''" "JStr ''''"
            "''h1''" "[(JStr ''bob'', [''h2''])]", OF c f]
      relay_falsy_field_dropped
        [of "[''senderId'' \<mapsto> JStr ''alice'', ''receiverId'' \<mapsto> JStr ''bob'',
              ''mediaType'' \<mapsto> JStr '''', ''data'' \<mapsto> JStr ''AAAA'']" "''mediaType''"
            "JStr ''''" "''h1''" "[(JStr ''bob'', [''h2''])]", OF m f]
    by simp
qed

end
